theory Spec2Isabelle
  imports Main "HOL-Library.Word" "HOL-Library.Sublist" "HOL-Library.Multiset"
begin

section \<open>Data model (storage package)\<close>

text \<open>
  Go strings are byte sequences: \<open>string\<close> (a \<open>char list\<close>) models them, and
  \<open>length\<close> is Go's \<open>len\<close>. A \<open>time.Time\<close> is an instant on a linear time line
  (\<open>int\<close>); \<open>Before\<close> and \<open>After\<close> are the strict orders on instants.

  The type parameter \<open>'c\<close> of a record is the representation of the field
  \<open>ResponseChunks []string\<close>: \<open>string list\<close> where only the contents of the
  slice matter, and a slice header pointing into a heap of backing arrays where aliasing
  between copies of a record matters.
\<close>

record 'c Record =
  ID :: string
  Timestamp :: int
  Provider :: string
  Method :: string
  URL :: string
  Upstream :: string
  Status :: int
  DurationMS :: int
  RequestBody :: string
  ResponseBody :: string
  Stream :: bool
  ResponseChunks :: 'c
  SizeReqBytes :: int
  SizeResBytes :: int
  ModelHint :: string
  Error :: "string option"

text \<open>
  \<open>storage.Query\<close>. The pointer fields are options (\<open>nil\<close> is \<open>None\<close>); \<open>Offset\<close>
  and \<open>Limit\<close> are Go \<open>int\<close>s, 64-bit two's complement words read with \<open>sint\<close>.
\<close>

record Query =
  Provider_q :: "string option"
  ModelLike :: "string option"
  URLLike :: "string option"
  StatusEq :: "int option"
  From :: "int option"
  To :: "int option"
  TextSearch :: "string option"
  Offset :: "64 word"
  Limit :: "64 word"
  Sort :: string

section \<open>Configuration (config package)\<close>

record CaptureConfig =
  MaxBodyMB :: "64 word"
  Store :: string
  WorkerPoolSize :: "64 word"

text \<open>\<open>MaxBodyBytes\<close>: \<open>int64(c.Capture.MaxBodyMB) * 1024 * 1024\<close>, wrapping at 64 bits.\<close>

definition MaxBodyBytes :: "CaptureConfig \<Rightarrow> int" where
  "MaxBodyBytes c = sint (MaxBodyMB c * 1024 * 1024)"

section \<open>Request capture (proxy package)\<close>

text \<open>
  A request body as the handler finds it: the bytes the client delivers, and whether the
  read that follows them fails (\<open>read_fails\<close>) instead of reporting end of file.
\<close>

record body_reader =
  content :: string
  read_fails :: bool

record Request =
  Method_r :: string
  URL_r :: string
  Body :: "body_reader option"

text \<open>
  \<open>io.ReadAll(io.LimitReader(b, n))\<close>: a limit \<open>n \<le> 0\<close> reports end of file at
  once; otherwise at most \<open>n\<close> bytes are taken, and the underlying reader's failure is met
  only when it delivers fewer than \<open>n\<close> bytes.
\<close>

definition ReadAll_LimitReader :: "body_reader \<Rightarrow> int \<Rightarrow> string + string" where
  "ReadAll_LimitReader b n =
     (if n \<le> 0 then Inr []
      else if nat n \<le> length (content b) then Inr (take (nat n) (content b))
      else if read_fails b then Inl ''read error''
      else Inr (content b))"

text \<open>\<open>bytes.NewReader(body)\<close> wrapped in \<open>io.NopCloser\<close>: delivers \<open>body\<close>, then end of file.\<close>

definition NewReader :: "string \<Rightarrow> body_reader" where
  "NewReader body = \<lparr>content = body, read_fails = False\<rparr>"

text \<open>
  \<open>captureRequestBody\<close> mutates the request and the record; the model returns both, or
  the error.
\<close>

definition captureRequestBody ::
  "CaptureConfig \<Rightarrow> Request \<Rightarrow> 'c Record \<Rightarrow> string + (Request \<times> 'c Record)" where
  "captureRequestBody cfg r record =
     (case Body r of
        None \<Rightarrow> Inr (r, record)
      | Some b \<Rightarrow>
          (case ReadAll_LimitReader b (MaxBodyBytes cfg) of
             Inl err \<Rightarrow> Inl (''failed to read request body: '' @ err)
           | Inr body \<Rightarrow>
               Inr (r\<lparr>Body := Some (NewReader body)\<rparr>,
                    record\<lparr>RequestBody := body, SizeReqBytes := int (length body)\<rparr>)))"

section \<open>Response capture (proxy package)\<close>

text \<open>\<open>strings.Contains(s, substr)\<close>: \<open>substr\<close> occurs in \<open>s\<close> as a contiguous run.\<close>

definition Contains :: "string \<Rightarrow> string \<Rightarrow> bool" where
  "Contains s substr = sublist substr s"

text \<open>
  The upstream's response as \<open>ModifyResponse\<close> sees it: the status code, the two header
  values the classifier reads, and whether \<open>resp.Body\<close> is non-nil.
\<close>

record Response =
  StatusCode :: int
  ContentType :: string
  TransferEncoding :: string
  HasBody :: bool

definition isStream :: "Response \<Rightarrow> bool" where
  "isStream resp =
     (Contains (ContentType resp) ''text/event-stream'' \<or>
      Contains (ContentType resp) ''application/x-ndjson'' \<or>
      TransferEncoding resp = ''chunked'')"

text \<open>
  The reader installed below \<open>bodyCapture\<close>: a \<open>streamCapture\<close> with its \<open>maxSize\<close>,
  or \<open>io.TeeReader\<close> into the buffer.
\<close>

datatype tee = streamCapture int | TeeReader

text \<open>
  \<open>resp.Body\<close> after \<open>captureResponseBody\<close>: the \<open>bodyCapture\<close> wrapper together with
  the two variables its closures share, \<open>buf\<close> (a \<open>bytes.Buffer\<close>) and \<open>chunks\<close>.
\<close>

record bodyCapture =
  reader :: tee
  buf :: string
  chunks :: "string list"
  closed :: bool

text \<open>
  One \<open>Read\<close> on the wrapper, where \<open>p\<close> holds the \<open>n\<close> bytes the upstream's own
  \<open>Read\<close> returned (\<open>p[:n]\<close>; \<open>n = 0\<close> is \<open>p = []\<close>). The bytes and the error go to the
  caller unchanged, so only the effect on \<open>buf\<close> and \<open>chunks\<close> is modelled.
\<close>

definition streamCapture_Read :: "int \<Rightarrow> string \<Rightarrow> bodyCapture \<Rightarrow> bodyCapture" where
  "streamCapture_Read maxSize p bc =
     (if length p > 0 then
        (if int (length (buf bc)) < maxSize
         then bc\<lparr>chunks := chunks bc @ [p], buf := buf bc @ p\<rparr>
         else bc)
      else bc)"

definition TeeReader_Read :: "string \<Rightarrow> bodyCapture \<Rightarrow> bodyCapture" where
  "TeeReader_Read p bc = (if length p > 0 then bc\<lparr>buf := buf bc @ p\<rparr> else bc)"

definition bodyCapture_Read :: "string \<Rightarrow> bodyCapture \<Rightarrow> bodyCapture" where
  "bodyCapture_Read p bc =
     (case reader bc of
        streamCapture maxSize \<Rightarrow> streamCapture_Read maxSize p bc
      | TeeReader \<Rightarrow> TeeReader_Read p bc)"

text \<open>The \<open>onClose\<close> closure built by \<open>captureResponseBody\<close>.\<close>

definition onClose :: "bodyCapture \<Rightarrow> string list Record \<Rightarrow> string list Record" where
  "onClose bc record =
     (let record1 = record\<lparr>ResponseBody := buf bc, SizeResBytes := int (length (buf bc))\<rparr>
      in if length (chunks bc) > 0 then record1\<lparr>ResponseChunks := chunks bc\<rparr> else record1)"

text \<open>
  \<open>bodyCapture.Close\<close>. The first component of the result tells whether this call ran
  \<open>onClose\<close>.
\<close>

definition bodyCapture_Close ::
  "bodyCapture \<times> string list Record \<Rightarrow> bool \<times> bodyCapture \<times> string list Record" where
  "bodyCapture_Close st =
     (case st of (bc, record) \<Rightarrow>
        if \<not> closed bc then (True, bc\<lparr>closed := True\<rparr>, onClose bc record)
        else (False, bc, record))"

text \<open>
  \<open>captureResponseBody\<close>: the returned error (\<open>None\<close> is \<open>nil\<close>), the record, and the
  wrapper installed as \<open>resp.Body\<close> (\<open>None\<close> when the body was nil and stays so).
\<close>

definition captureResponseBody ::
  "CaptureConfig \<Rightarrow> Response \<Rightarrow> string list Record \<Rightarrow>
     string option \<times> string list Record \<times> bodyCapture option" where
  "captureResponseBody cfg resp record =
     (if \<not> HasBody resp then (None, record, None)
      else
        (None,
         record\<lparr>Stream := isStream resp\<rparr>,
         Some \<lparr>reader = (if isStream resp then streamCapture (MaxBodyBytes cfg) else TeeReader),
               buf = [], chunks = [], closed = False\<rparr>))"

section \<open>The proxy handler\<close>

record RouteConfig =
  Mount :: string
  Upstream_c :: string

text \<open>
  What the round trip to the upstream gives \<open>httputil.ReverseProxy\<close>: a transport error,
  or a response together with the byte groups that the successive \<open>Read\<close> calls of the
  proxy's copy loop return before it closes the body.
\<close>

datatype roundtrip = RoundTripError | RoundTripOK Response "string list"

datatype client_response =
  NotFound | HttpError int string | BadGateway | Relayed int "string list"

text \<open>
  \<open>proxy.ServeHTTP(w, r)\<close> of the library's reverse proxy with the \<open>ModifyResponse\<close>
  hook of the handler: a transport error or a hook error is answered with 502; otherwise
  every byte group read from the (wrapped) body is written to the client and the body
  is closed once.
\<close>

definition proxy_ServeHTTP ::
  "CaptureConfig \<Rightarrow> roundtrip \<Rightarrow> string list Record \<Rightarrow> client_response \<times> string list Record" where
  "proxy_ServeHTTP cfg rt record =
     (case rt of
        RoundTripError \<Rightarrow> (BadGateway, record)
      | RoundTripOK resp reads \<Rightarrow>
          (case captureResponseBody cfg resp (record\<lparr>Status := StatusCode resp\<rparr>) of
             (Some err, record2, body) \<Rightarrow> (BadGateway, record2)
           | (None, record2, None) \<Rightarrow> (Relayed (StatusCode resp) [], record2)
           | (None, record2, Some bc) \<Rightarrow>
               (Relayed (StatusCode resp) reads,
                snd (snd (bodyCapture_Close (fold bodyCapture_Read reads bc, record2))))))"

text \<open>
  \<open>extractModelHint\<close>; \<open>json_model body\<close> is the string under the key \<open>model\<close> when
  \<open>body\<close> unmarshals to a JSON object that has one.
\<close>

definition extractModelHint ::
  "(string \<Rightarrow> string option) \<Rightarrow> 'c Record \<Rightarrow> 'c Record" where
  "extractModelHint json_model record =
     (if RequestBody record = [] then record
      else case json_model (RequestBody record) of
             None \<Rightarrow> record
           | Some model \<Rightarrow> record\<lparr>ModelHint := model\<rparr>)"

text \<open>
  Everything \<open>ServeHTTP\<close> takes from outside the handler: the route found for the mount,
  whether the upstream URL parses, the fresh id and the clock, the upstream's reply, the
  elapsed time, the JSON decoder, and whether the worker queue is full.
\<close>

record env =
  route :: "(string \<times> RouteConfig) option"
  upstream_parses :: bool
  new_uuid :: string
  now :: int
  reply :: roundtrip
  elapsed_ms :: int
  json_model :: "string \<Rightarrow> string option"
  queue_full :: bool

record serve_result =
  to_client :: client_response
  forwarded :: "Request option"
  logged :: "string list"
  queued :: "string list Record option"

text \<open>The record \<open>ServeHTTP\<close> creates for a request matched to a route.\<close>

definition new_record :: "env \<Rightarrow> string \<Rightarrow> RouteConfig \<Rightarrow> Request \<Rightarrow> string list Record" where
  "new_record e providerName rt r =
     \<lparr>ID = new_uuid e, Timestamp = now e, Provider = providerName,
      Method = Method_r r, URL = URL_r r, Upstream = Upstream_c rt,
      Status = 0, DurationMS = 0, RequestBody = [], ResponseBody = [],
      Stream = False, ResponseChunks = [], SizeReqBytes = 0,
      SizeResBytes = 0, ModelHint = [], Error = None\<rparr>"

definition ServeHTTP :: "CaptureConfig \<Rightarrow> env \<Rightarrow> Request \<Rightarrow> serve_result" where
  "ServeHTTP cfg e r =
     (case route e of
        None \<Rightarrow> \<lparr>to_client = NotFound, forwarded = None, logged = [], queued = None\<rparr>
      | Some (providerName, rt) \<Rightarrow>
          if \<not> upstream_parses e then
            \<lparr>to_client = HttpError 500 ''Invalid upstream URL'', forwarded = None,
             logged = [], queued = None\<rparr>
          else
            (case captureRequestBody cfg r (new_record e providerName rt r) of
               Inl err \<Rightarrow>
                 \<lparr>to_client = HttpError 500 ''Failed to process request'', forwarded = None,
                  logged = [''Failed to capture request body: '' @ err], queued = None\<rparr>
             | Inr (r', record) \<Rightarrow>
                 (case proxy_ServeHTTP cfg (reply e) record of
                    (answer, record2) \<Rightarrow>
                      (let record3 = extractModelHint (json_model e)
                                       (record2\<lparr>DurationMS := elapsed_ms e\<rparr>)
                       in if queue_full e then
                            \<lparr>to_client = answer, forwarded = Some r',
                             logged = [''Storage worker queue full, dropping record '' @ ID record3],
                             queued = None\<rparr>
                          else
                            \<lparr>to_client = answer, forwarded = Some r', logged = [],
                             queued = Some record3\<rparr>))))"

text \<open>
  The calls made on the wrapped body, and a run of them from a given state. The count
  returned is the number of times \<open>onClose\<close> was called during the run.
\<close>

datatype body_op = Read string | Close

fun run_ops ::
  "body_op list \<Rightarrow> bodyCapture \<times> string list Record \<Rightarrow> nat \<times> bodyCapture \<times> string list Record" where
  "run_ops [] st = (0, st)"
| "run_ops (Read p # ops) st = run_ops ops (bodyCapture_Read p (fst st), snd st)"
| "run_ops (Close # ops) st =
     (case bodyCapture_Close st of
        (called, st') \<Rightarrow>
          (case run_ops ops st' of (n, st'') \<Rightarrow> ((if called then 1 else 0) + n, st'')))"

section \<open>The in-memory store (storage/memory package)\<close>

text \<open>
  The \<open>Store\<close> struct: the map from ids to records (the lock has no sequential
  content). A function of the store either returns, returns an error, or panics.
\<close>

record 'c memory_Store =
  records :: "string \<rightharpoonup> 'c Record"

datatype fault = Panic | Failed string

definition New :: "'c memory_Store" where
  "New = \<lparr>records = Map.empty\<rparr>"

text \<open>
  \<open>Save\<close> copies the struct \<open>*r\<close> and stores the copy under \<open>r.ID\<close>: every field
  value is copied, the slice header in \<open>ResponseChunks\<close> included.
\<close>

definition Save :: "'c memory_Store \<Rightarrow> 'c Record \<Rightarrow> 'c memory_Store" where
  "Save s r = s\<lparr>records := (records s)(ID r \<mapsto> r)\<rparr>"

definition Get :: "'c memory_Store \<Rightarrow> string \<Rightarrow> string + 'c Record" where
  "Get s rid =
     (case records s rid of
        None \<Rightarrow> Inl (''record not found: '' @ rid)
      | Some record \<Rightarrow> Inr record)"

definition Delete :: "'c memory_Store \<Rightarrow> string \<Rightarrow> string + 'c memory_Store" where
  "Delete s rid =
     (case records s rid of
        None \<Rightarrow> Inl (''record not found: '' @ rid)
      | Some record \<Rightarrow> Inr (s\<lparr>records := (records s)(rid := None)\<rparr>))"

text \<open>
  \<open>strings.ToLower\<close> on the ASCII letters (the library also lowers letters outside
  ASCII; nothing below depends on which letters are lowered).
\<close>

definition ToLower :: "string \<Rightarrow> string" where
  "ToLower s =
     map (\<lambda>c. if 65 \<le> (of_char c :: nat) \<and> (of_char c :: nat) \<le> 90
              then char_of ((of_char c :: nat) + 32) else c) s"

definition matchesQuery :: "'c Record \<Rightarrow> Query \<Rightarrow> bool" where
  "matchesQuery record q =
     (if (case Provider_q q of None \<Rightarrow> False | Some p \<Rightarrow> Provider record \<noteq> p) then False
      else if (case StatusEq q of None \<Rightarrow> False | Some st \<Rightarrow> Status record \<noteq> st) then False
      else if (case From q of None \<Rightarrow> False | Some t \<Rightarrow> Timestamp record < t) then False
      else if (case To q of None \<Rightarrow> False | Some t \<Rightarrow> Timestamp record > t) then False
      else if (case ModelLike q of None \<Rightarrow> False
               | Some m \<Rightarrow> \<not> Contains (ToLower (ModelHint record)) (ToLower m)) then False
      else if (case URLLike q of None \<Rightarrow> False
               | Some u \<Rightarrow> \<not> Contains (ToLower (URL record)) (ToLower u)) then False
      else if (case TextSearch q of None \<Rightarrow> False
               | Some t \<Rightarrow>
                   \<not> Contains
                       (ToLower (RequestBody record @ '' '' @ ResponseBody record @ '' '' @
                                 URL record @ '' '' @ ModelHint record))
                       (ToLower t)) then False
      else True)"

text \<open>
  \<open>sort.Slice(records, less)\<close>, as the insertion sort the library runs on short slices:
  each element in turn moves left while it is \<open>less\<close> than its left neighbour. On longer
  slices the library's result can differ in the order of elements that compare equal.
\<close>

fun insert_less :: "('a \<Rightarrow> 'a \<Rightarrow> bool) \<Rightarrow> 'a \<Rightarrow> 'a list \<Rightarrow> 'a list" where
  "insert_less lessf x [] = [x]"
| "insert_less lessf x (y # ys) =
     (if lessf x y then x # y # ys else y # insert_less lessf x ys)"

definition sort_Slice :: "('a \<Rightarrow> 'a \<Rightarrow> bool) \<Rightarrow> 'a list \<Rightarrow> 'a list" where
  "sort_Slice lessf xs = foldl (\<lambda>acc x. insert_less lessf x acc) [] xs"

definition sortRecords :: "'c Record list \<Rightarrow> string \<Rightarrow> 'c Record list" where
  "sortRecords rs sortBy =
     (if sortBy = ''-ts'' then sort_Slice (\<lambda>a b. Timestamp a > Timestamp b) rs
      else sort_Slice (\<lambda>a b. Timestamp a < Timestamp b) rs)"

text \<open>
  \<open>ks\<close> is the order in which \<open>range s.records\<close> visits the keys of the map, which Go
  leaves unspecified: each key once.
\<close>

definition range_order :: "'c memory_Store \<Rightarrow> string list \<Rightarrow> bool" where
  "range_order s ks = (distinct ks \<and> set ks = dom (records s))"

text \<open>
  The first half of \<open>List\<close>: the loop that collects the records matching the query,
  in the order the map is visited, and the sort of the collected slice.
\<close>

definition sorted_matches :: "'c memory_Store \<Rightarrow> string list \<Rightarrow> Query \<Rightarrow> 'c Record list" where
  "sorted_matches s ks q =
     sortRecords
       (filter (\<lambda>record. matchesQuery record q) (List.map_filter (records s) ks))
       (Sort q)"

text \<open>
  The second half: the total and the page. \<open>start\<close> and \<open>end\<close> are Go \<open>int\<close>s: they
  are kept as the integers they denote, and \<open>start + q.Limit\<close> wraps at 64 bits
  (\<open>len(matches)\<close> is an \<open>int\<close> that never wraps). \<open>make([]Record, end-start)\<close> and
  \<open>matches[start:end]\<close> panic unless \<open>0 \<le> start \<le> end\<close> (\<open>end\<close> never exceeds
  \<open>len(matches)\<close>); the error returned is always nil.
\<close>

definition List ::
  "'c memory_Store \<Rightarrow> string list \<Rightarrow> Query \<Rightarrow> fault + ('c Record list \<times> nat)" where
  "List s ks q =
     (let matches = sorted_matches s ks q;
          total = length matches;
          start = (if sint (Offset q) > int (length matches)
                   then int (length matches) else sint (Offset q));
          end0 = sint ((word_of_int start :: 64 word) + Limit q);
          end1 = (if sint (Limit q) \<le> 0 \<or> end0 > int (length matches)
                  then int (length matches) else end0)
      in if 0 \<le> start \<and> start \<le> end1
         then Inr (take (nat (end1 - start)) (drop (nat start) matches), total)
         else Inl Panic)"

text \<open>
  \<open>ExportNDJSON\<close>: \<open>encoder.Encode(record)\<close> appends the JSON text of the record and a
  newline to the buffer; \<open>marshal\<close> is the library's JSON encoding of a record
  (\<open>None\<close> when it fails).
\<close>

fun encode_records ::
  "('c Record \<Rightarrow> string option) \<Rightarrow> 'c Record list \<Rightarrow> string \<Rightarrow> fault + string" where
  "encode_records marshal [] buffer = Inr buffer"
| "encode_records marshal (record # rest) buffer =
     (case marshal record of
        None \<Rightarrow> Inl (Failed ''failed to encode record'')
      | Some js \<Rightarrow> encode_records marshal rest (buffer @ js @ [CHR 0x0A]))"

definition ExportNDJSON ::
  "('c Record \<Rightarrow> string option) \<Rightarrow> 'c memory_Store \<Rightarrow> string list \<Rightarrow> Query \<Rightarrow> fault + string" where
  "ExportNDJSON marshal s ks q =
     (case List s ks q of
        Inl f \<Rightarrow> Inl f
      | Inr (rs, n) \<Rightarrow> encode_records marshal rs [])"

section \<open>The REST handlers (api package)\<close>

text \<open>
  The library functions the handlers call: \<open>strconv.Atoi\<close>, \<open>time.Parse\<close> with the
  RFC 3339 layout, and the JSON encoding of a record.
\<close>

record stdlib =
  Atoi :: "string \<Rightarrow> 64 word option"
  ParseRFC3339 :: "string \<Rightarrow> int option"
  Marshal :: "string list Record \<Rightarrow> string option"

text \<open>\<open>parseQuery\<close>; \<open>params k\<close> is \<open>params.Get(k)\<close>, empty when the key is absent.\<close>

definition parseQuery :: "stdlib \<Rightarrow> (string \<Rightarrow> string) \<Rightarrow> string + Query" where
  "parseQuery lib params =
     (let q0 = \<lparr>Provider_q = None, ModelLike = None, URLLike = None, StatusEq = None,
                From = None, To = None, TextSearch = None, Offset = 0, Limit = 50,
                Sort = ''-ts''\<rparr>;
          q1 = (if params ''provider'' \<noteq> [] then q0\<lparr>Provider_q := Some (params ''provider'')\<rparr> else q0);
          q2 = (if params ''modelLike'' \<noteq> [] then q1\<lparr>ModelLike := Some (params ''modelLike'')\<rparr> else q1);
          q3 = (if params ''urlLike'' \<noteq> [] then q2\<lparr>URLLike := Some (params ''urlLike'')\<rparr> else q2)
      in case (if params ''status'' \<noteq> [] then
                 (case Atoi lib (params ''status'') of
                    None \<Rightarrow> Inl ''invalid status parameter''
                  | Some status \<Rightarrow> Inr (q3\<lparr>StatusEq := Some (sint status)\<rparr>))
               else Inr q3) of
           Inl err \<Rightarrow> Inl err
         | Inr q4 \<Rightarrow>
        (let q5 = (if params ''q'' \<noteq> [] then q4\<lparr>TextSearch := Some (params ''q'')\<rparr> else q4)
         in case (if params ''from'' \<noteq> [] then
                    (case ParseRFC3339 lib (params ''from'') of
                       None \<Rightarrow> Inl ''invalid from parameter''
                     | Some t \<Rightarrow> Inr (q5\<lparr>From := Some t\<rparr>))
                  else Inr q5) of
              Inl err \<Rightarrow> Inl err
            | Inr q6 \<Rightarrow>
           (case (if params ''to'' \<noteq> [] then
                    (case ParseRFC3339 lib (params ''to'') of
                       None \<Rightarrow> Inl ''invalid to parameter''
                     | Some t \<Rightarrow> Inr (q6\<lparr>To := Some t\<rparr>))
                  else Inr q6) of
              Inl err \<Rightarrow> Inl err
            | Inr q7 \<Rightarrow>
           (case (if params ''offset'' \<noteq> [] then
                    (case Atoi lib (params ''offset'') of
                       None \<Rightarrow> Inl ''invalid offset parameter''
                     | Some offset \<Rightarrow> Inr (q7\<lparr>Offset := offset\<rparr>))
                  else Inr q7) of
              Inl err \<Rightarrow> Inl err
            | Inr q8 \<Rightarrow>
           (case (if params ''limit'' \<noteq> [] then
                    (case Atoi lib (params ''limit'') of
                       None \<Rightarrow> Inl ''invalid limit parameter''
                     | Some limit \<Rightarrow> Inr (if sint limit > 0 then q8\<lparr>Limit := limit\<rparr> else q8))
                  else Inr q8) of
              Inl err \<Rightarrow> Inl err
            | Inr q9 \<Rightarrow>
           (if params ''sort'' \<noteq> [] then
              (if params ''sort'' = ''ts'' \<or> params ''sort'' = ''-ts''
               then Inr (q9\<lparr>Sort := params ''sort''\<rparr>)
               else Inl (''invalid sort parameter: must be 'ts' or '-ts'' @ [CHR 0x27]))
            else Inr q9))))))"

text \<open>
  What a handler leaves on the wire: \<open>http.Error(w, msg, code)\<close>, the JSON listing, the
  export body, the flushed writes of an event stream one by one, or nothing when the
  handler panicked.
\<close>

datatype api_response =
  Error_reply int string
| Listing "string list Record list" nat "64 word" "64 word"
| NDJSON string
| EventStream "string list"
| Panicked

definition handleRequests ::
  "stdlib \<Rightarrow> string list memory_Store \<Rightarrow> string list \<Rightarrow> string \<Rightarrow> (string \<Rightarrow> string) \<Rightarrow> api_response" where
  "handleRequests lib s ks method params =
     (if method \<noteq> ''GET'' then Error_reply 405 ''Method not allowed''
      else case parseQuery lib params of
             Inl err \<Rightarrow> Error_reply 400 (''Invalid query parameters: '' @ err)
           | Inr query \<Rightarrow>
               (case List s ks query of
                  Inl Panic \<Rightarrow> Panicked
                | Inl (Failed err) \<Rightarrow> Error_reply 500 (''Failed to list records: '' @ err)
                | Inr (rs, n) \<Rightarrow> Listing rs n (Offset query) (Limit query)))"



section \<open>Slices as Go has them\<close>

text \<open>
  A \<open>[]string\<close> value is a header: the address of a backing array and a length. The
  heap maps addresses to backing arrays. Copying a struct copies the header, not the
  array.
\<close>

record slice =
  ptr :: nat
  len :: nat

type_synonym heap = "nat \<Rightarrow> string list"

text \<open>The strings seen through a slice.\<close>

definition elems :: "heap \<Rightarrow> slice \<Rightarrow> string list" where
  "elems h sl = take (len sl) (h (ptr sl))"

text \<open>The assignment \<open>sl[i] = v\<close>: a panic when \<open>i\<close> is out of range.\<close>

definition assign_index :: "heap \<Rightarrow> slice \<Rightarrow> nat \<Rightarrow> string \<Rightarrow> heap option" where
  "assign_index h sl i v =
     (if i < len sl then Some (h(ptr sl := (h (ptr sl))[i := v])) else None)"

section \<open>Lines of a text\<close>


section \<open>Example inputs\<close>

text \<open>
  A configuration with \<open>max_body_mb: 1\<close>, an environment in which the route
  \<open>/openai\<close> is found, a POST request with a given body, and upstream replies with a
  JSON and with an event-stream content type.
\<close>

definition cfg_1MB :: CaptureConfig where
  "cfg_1MB = \<lparr>MaxBodyMB = 1, Store = ''memory'', WorkerPoolSize = 10\<rparr>"

definition openai_route :: RouteConfig where
  "openai_route = \<lparr>Mount = ''/openai'', Upstream_c = ''https://api.openai.com/v1''\<rparr>"

definition env_with :: "roundtrip \<Rightarrow> env" where
  "env_with rt =
     \<lparr>route = Some (''openai'', openai_route),
      upstream_parses = True, new_uuid = ''id-1'', now = 1000, reply = rt, elapsed_ms = 12,
      json_model = (\<lambda>body. None), queue_full = False\<rparr>"

definition post :: "body_reader \<Rightarrow> Request" where
  "post b = \<lparr>Method_r = ''POST'', URL_r = ''/openai/chat/completions'', Body = Some b\<rparr>"

definition json_response :: Response where
  "json_response =
     \<lparr>StatusCode = 200, ContentType = ''application/json'', TransferEncoding = [],
      HasBody = True\<rparr>"

definition sse_response :: Response where
  "sse_response =
     \<lparr>StatusCode = 200, ContentType = ''text/event-stream; charset=utf-8'',
      TransferEncoding = [], HasBody = True\<rparr>"

text \<open>
  Two stored records, an older non-stream one and a newer stream one with two chunks;
  the store that holds both; library functions (\<open>Atoi\<close> on the numerals used
  below, a JSON encoding that writes the id only); and the query that \<open>parseQuery\<close>
  starts from.
\<close>

definition rec_A :: "string list Record" where
  "rec_A =
     \<lparr>ID = ''a'', Timestamp = 100, Provider = ''openai'', Method = ''POST'',
      URL = ''/openai/chat/completions'', Upstream = ''https://api.openai.com/v1'',
      Status = 200, DurationMS = 5, RequestBody = ''{}'', ResponseBody = ''{}'',
      Stream = False, ResponseChunks = [], SizeReqBytes = 2, SizeResBytes = 2,
      ModelHint = [], Error = None\<rparr>"

definition rec_B :: "string list Record" where
  "rec_B =
     \<lparr>ID = ''b'', Timestamp = 200, Provider = ''ollama'', Method = ''POST'',
      URL = ''/ollama/api/chat'', Upstream = ''http://localhost:11434'',
      Status = 500, DurationMS = 7, RequestBody = ''{}'', ResponseBody = ''data: 1data: 2'',
      Stream = True, ResponseChunks = [''data: 1'', ''data: 2''], SizeReqBytes = 2,
      SizeResBytes = 14, ModelHint = [], Error = None\<rparr>"

definition store_AB :: "string list memory_Store" where
  "store_AB = Save (Save New rec_A) rec_B"

definition lib_example :: stdlib where
  "lib_example =
     \<lparr>Atoi = (\<lambda>s. if s = ''-1'' then Some (- 1)
                   else if s = ''1'' then Some 1
                   else if s = ''9223372036854775807'' then Some 9223372036854775807
                   else None),
      ParseRFC3339 = (\<lambda>s. None),
      Marshal = (\<lambda>record. Some (''{\"id\":\"'' @ ID record @ ''\"}''))\<rparr>"

definition query0 :: Query where
  "query0 = \<lparr>Provider_q = None, ModelLike = None, URLLike = None, StatusEq = None,
                From = None, To = None, TextSearch = None, Offset = 0, Limit = 50,
                Sort = ''-ts''\<rparr>"

text \<open>
  A record whose chunks are a slice of length 2 at address 0, and a heap holding its
  backing array.
\<close>

definition rec_S :: "slice Record" where
  "rec_S =
     \<lparr>ID = ''s'', Timestamp = 300, Provider = ''ollama'', Method = ''POST'',
      URL = ''/ollama/api/chat'', Upstream = ''http://localhost:11434'',
      Status = 200, DurationMS = 7, RequestBody = ''{}'', ResponseBody = ''data: 1data: 2'',
      Stream = True, ResponseChunks = \<lparr>ptr = 0, len = 2\<rparr>, SizeReqBytes = 2,
      SizeResBytes = 14, ModelHint = [], Error = None\<rparr>"

definition heap_S :: heap where
  "heap_S = (\<lambda>a. [])(0 := [''data: 1'', ''data: 2''])"

section \<open>Evaluation of the examples\<close>

lemmas example_defs = openai_route_def env_with_def post_def

lemmas handler_defs = ServeHTTP_def new_record_def captureRequestBody_def
  ReadAll_LimitReader_def NewReader_def proxy_ServeHTTP_def captureResponseBody_def
  bodyCapture_Read_def streamCapture_Read_def TeeReader_Read_def bodyCapture_Close_def
  onClose_def extractModelHint_def

lemma MaxBodyBytes_cfg_1MB [simp]: "MaxBodyBytes cfg_1MB = 1048576"
  by (simp add: MaxBodyBytes_def cfg_1MB_def)

lemma json_response_simps [simp]:
  "\<not> isStream json_response" "HasBody json_response" "StatusCode json_response = 200"
  by (simp_all add: json_response_def isStream_def Contains_def sublist_code)

lemma sse_response_simps [simp]:
  "isStream sse_response" "HasBody sse_response" "StatusCode sse_response = 200"
  by (simp_all add: sse_response_def isStream_def Contains_def sublist_code)

section \<open>Request capture\<close>

lemma captureRequestBody_forwards_prefix:
  assumes "Body r = Some b" and "0 < MaxBodyBytes cfg"
    and "nat (MaxBodyBytes cfg) \<le> length (content b)"
  shows "captureRequestBody cfg r rec1 =
     Inr (r\<lparr>Body := Some (NewReader (take (nat (MaxBodyBytes cfg)) (content b)))\<rparr>,
          rec1\<lparr>RequestBody := take (nat (MaxBodyBytes cfg)) (content b),
                SizeReqBytes := MaxBodyBytes cfg\<rparr>)"
  using assms by (simp add: captureRequestBody_def ReadAll_LimitReader_def min_def)

text \<open>
  Claim C1 asks that a request body longer than the capture ceiling reaches the upstream
  byte for byte. The handler does otherwise: with a ceiling of 1 MiB (1048576 bytes), a
  body of 1048577 bytes is handed to the reverse proxy as its first 1048576 bytes only,
  the same bytes that are stored in \<open>request_body\<close>.
\<close>

theorem ServeHTTP_forwards_truncated_body:
  "forwarded (ServeHTTP cfg_1MB (env_with (RoundTripOK json_response [''{}'']))
       (post \<lparr>content = replicate 1048577 CHR ''a'', read_fails = False\<rparr>))
     = Some (post \<lparr>content = replicate 1048576 CHR ''a'', read_fails = False\<rparr>)
   \<and> replicate 1048576 CHR ''a'' \<noteq> replicate 1048577 CHR ''a''"
  by (simp add: example_defs handler_defs Let_def)

section \<open>Capture failures\<close>






section \<open>Response capture\<close>

lemma closed_bodyCapture_Read: "closed (bodyCapture_Read p bc) = closed bc"
  by (simp add: bodyCapture_Read_def streamCapture_Read_def TeeReader_Read_def split: tee.splits)

lemma closed_fold_Read: "closed (fold bodyCapture_Read reads bc) = closed bc"
proof (induction reads arbitrary: bc)
  case Nil
  then show ?case by simp
next
  case (Cons p ps)
  from Cons.IH [of "bodyCapture_Read p bc"] show ?case
    by (simp add: closed_bodyCapture_Read)
qed

text \<open>The tee of a non-stream response copies every byte read, whatever the ceiling.\<close>

lemma fold_TeeReader:
  "reader bc = TeeReader \<Longrightarrow>
   fold bodyCapture_Read reads bc = bc\<lparr>buf := buf bc @ concat reads\<rparr>"
proof (induction reads arbitrary: bc)
  case Nil
  then show ?case by simp
next
  case (Cons p ps)
  have step: "bodyCapture_Read p bc = bc\<lparr>buf := buf bc @ p\<rparr>"
    using Cons.prems by (simp add: bodyCapture_Read_def TeeReader_Read_def)
  have "reader (bc\<lparr>buf := buf bc @ p\<rparr>) = TeeReader"
    using Cons.prems by simp
  from Cons.IH [OF this] show ?case by (simp add: step)
qed

lemma proxy_ServeHTTP_nonstream:
  assumes "\<not> isStream resp" and "HasBody resp"
  shows "snd (proxy_ServeHTTP cfg (RoundTripOK resp reads) rec1) =
           rec1\<lparr>Status := StatusCode resp, Stream := False, ResponseBody := concat reads,
                SizeResBytes := int (length (concat reads))\<rparr>"
  using assms
  by (simp add: proxy_ServeHTTP_def captureResponseBody_def bodyCapture_Close_def
      fold_TeeReader onClose_def Let_def)

text \<open>
  Claim C3 asks that the stored \<open>response_body\<close> of a non-stream record is at most the
  capture ceiling long. The handler does otherwise: with a ceiling of 1 MiB (1048576
  bytes), a JSON response of 1048577 bytes is stored whole; \<open>size_res_bytes\<close> is the
  number of bytes read, 1048577.
\<close>

theorem nonstream_response_body_exceeds_ceiling:
  "queued (ServeHTTP cfg_1MB (env_with (RoundTripOK json_response [replicate 1048577 CHR ''x'']))
       (post \<lparr>content = ''{}'', read_fails = False\<rparr>)) =
     Some \<lparr>ID = ''id-1'', Timestamp = 1000, Provider = ''openai'', Method = ''POST'',
           URL = ''/openai/chat/completions'', Upstream = ''https://api.openai.com/v1'',
           Status = 200, DurationMS = 12, RequestBody = ''{}'',
           ResponseBody = replicate 1048577 CHR ''x'', Stream = False, ResponseChunks = [],
           SizeReqBytes = 2, SizeResBytes = 1048577, ModelHint = [], Error = None\<rparr>
   \<and> int (length (replicate 1048577 CHR ''x'')) > MaxBodyBytes cfg_1MB"
  by (simp add: example_defs handler_defs Let_def)

text \<open>
  A stream capture whose buffer has reached the ceiling takes nothing more; before that,
  every non-empty read adds one chunk and the same bytes to the buffer.
\<close>

lemma full_buffer_stays:
  "reader bc = streamCapture m \<Longrightarrow> \<not> int (length (buf bc)) < m \<Longrightarrow>
   fold bodyCapture_Read reads bc = bc"
  by (induction reads) (simp_all add: bodyCapture_Read_def streamCapture_Read_def)

lemma fold_streamCapture:
  "reader bc = streamCapture m \<Longrightarrow>
   \<exists>cs. fold bodyCapture_Read reads bc =
          bc\<lparr>chunks := chunks bc @ cs, buf := buf bc @ concat cs\<rparr> \<and>
        prefix cs (filter (\<lambda>p. p \<noteq> []) reads)"
proof (induction reads arbitrary: bc)
  case Nil
  then show ?case by simp
next
  case (Cons p ps)
  show ?case
  proof (cases "p \<noteq> [] \<and> int (length (buf bc)) < m")
    case True
    let ?bc = "bc\<lparr>chunks := chunks bc @ [p], buf := buf bc @ p\<rparr>"
    have step: "bodyCapture_Read p bc = ?bc"
      using True Cons.prems by (simp add: bodyCapture_Read_def streamCapture_Read_def)
    have "reader ?bc = streamCapture m"
      using Cons.prems by simp
    from Cons.IH [OF this] obtain cs where
      "fold bodyCapture_Read ps ?bc =
         ?bc\<lparr>chunks := chunks ?bc @ cs, buf := buf ?bc @ concat cs\<rparr>"
      "prefix cs (filter (\<lambda>p. p \<noteq> []) ps)"
      by blast
    with True step show ?thesis
      by (intro exI [of _ "p # cs"]) simp
  next
    case False
    then have step: "bodyCapture_Read p bc = bc"
      using Cons.prems by (auto simp add: bodyCapture_Read_def streamCapture_Read_def)
    show ?thesis
    proof (cases "p = []")
      case True
      from Cons.IH [OF Cons.prems] step True show ?thesis by simp
    next
      case nonempty: False
      with False have "\<not> int (length (buf bc)) < m" by simp
      from full_buffer_stays [OF Cons.prems this] step show ?thesis
        by (intro exI [of _ "[]"]) simp
    qed
  qed
qed

lemma captureRequestBody_keeps_response_fields:
  "captureRequestBody cfg r rec1 = Inr (r', rec2) \<Longrightarrow>
     Stream rec2 = Stream rec1 \<and> ResponseChunks rec2 = ResponseChunks rec1 \<and>
     ResponseBody rec2 = ResponseBody rec1"
  by (auto simp: captureRequestBody_def split: option.splits sum.splits)

lemma extractModelHint_keeps_response_fields:
  "Stream (extractModelHint jm rec1) = Stream rec1 \<and>
   ResponseChunks (extractModelHint jm rec1) = ResponseChunks rec1 \<and>
   ResponseBody (extractModelHint jm rec1) = ResponseBody rec1 \<and>
   SizeResBytes (extractModelHint jm rec1) = SizeResBytes rec1"
  by (simp add: extractModelHint_def split: option.splits)

text \<open>How a queued record came about.\<close>

lemma ServeHTTP_queued:
  assumes "queued (ServeHTTP cfg e r) = Some rec"
  shows "\<exists>providerName rt r' rec1 answer rec2.
           captureRequestBody cfg r (new_record e providerName rt r) = Inr (r', rec1) \<and>
           proxy_ServeHTTP cfg (reply e) rec1 = (answer, rec2) \<and>
           rec = extractModelHint (json_model e) (rec2\<lparr>DurationMS := elapsed_ms e\<rparr>)"
proof (cases "route e")
  case None
  with assms show ?thesis by (simp add: ServeHTTP_def)
next
  case (Some a)
  obtain providerName rt where a: "a = (providerName, rt)"
    by (cases a)
  show ?thesis
  proof (cases "upstream_parses e")
    case False
    with assms Some a show ?thesis by (simp add: ServeHTTP_def)
  next
    case True
    show ?thesis
    proof (cases "captureRequestBody cfg r (new_record e providerName rt r)")
      case (Inl err)
      with assms Some a True show ?thesis by (simp add: ServeHTTP_def)
    next
      case (Inr b)
      obtain r' rec1 where b: "b = (r', rec1)"
        by (cases b)
      obtain answer rec2 where px: "proxy_ServeHTTP cfg (reply e) rec1 = (answer, rec2)"
        by (cases "proxy_ServeHTTP cfg (reply e) rec1")
      have "rec = extractModelHint (json_model e) (rec2\<lparr>DurationMS := elapsed_ms e\<rparr>)"
        using assms Some a True Inr b px
        by (simp add: ServeHTTP_def Let_def split: if_splits)
      with Inr b px show ?thesis by blast
    qed
  qed
qed

lemma proxy_ServeHTTP_stream:
  assumes "proxy_ServeHTTP cfg rt rec1 = (answer, rec2)"
    and "\<not> Stream rec1" and "ResponseChunks rec1 = []" and "Stream rec2"
  shows "\<exists>resp reads. rt = RoundTripOK resp reads \<and> isStream resp \<and>
           concat (ResponseChunks rec2) = ResponseBody rec2 \<and>
           prefix (ResponseChunks rec2) (filter (\<lambda>p. p \<noteq> []) reads)"
proof (cases rt)
  case RoundTripError
  with assms show ?thesis by (simp add: proxy_ServeHTTP_def)
next
  case (RoundTripOK resp reads)
  show ?thesis
  proof (cases "HasBody resp")
    case False
    with assms RoundTripOK show ?thesis
      by (auto simp add: proxy_ServeHTTP_def captureResponseBody_def)
  next
    case True
    let ?bc = "\<lparr>reader = (if isStream resp then streamCapture (MaxBodyBytes cfg) else TeeReader),
               buf = [], chunks = [], closed = False\<rparr>"
    let ?rec = "rec1\<lparr>Status := StatusCode resp, Stream := isStream resp\<rparr>"
    have rec2: "rec2 = onClose (fold bodyCapture_Read reads ?bc) ?rec"
      using assms(1) RoundTripOK True
      by (simp add: proxy_ServeHTTP_def captureResponseBody_def bodyCapture_Close_def
          closed_fold_Read)
    have "Stream rec2 = isStream resp"
      unfolding rec2 by (simp add: onClose_def Let_def)
    with assms(4) have st: "isStream resp"
      by simp
    then have "reader ?bc = streamCapture (MaxBodyBytes cfg)"
      by simp
    from fold_streamCapture [OF this, of reads] obtain cs where
      f: "fold bodyCapture_Read reads ?bc = ?bc\<lparr>chunks := cs, buf := concat cs\<rparr>"
      and p: "prefix cs (filter (\<lambda>p. p \<noteq> []) reads)"
      by auto
    have "ResponseBody rec2 = concat cs" "ResponseChunks rec2 = cs"
      unfolding rec2 f using assms(3) by (simp_all add: onClose_def Let_def)
    with RoundTripOK st p show ?thesis by simp
  qed
qed

text \<open>
  Claim C4: in every queued record with the stream flag set, the concatenation of
  \<open>response_chunks\<close> in order is \<open>response_body\<close>, and the chunks are, one for one
  and in order, the first non-empty byte groups read from the upstream's body (those
  read before the buffer reached the ceiling).
\<close>

theorem stream_chunks_concat_to_body:
  assumes "queued (ServeHTTP cfg e r) = Some rec" and "Stream rec"
  shows "concat (ResponseChunks rec) = ResponseBody rec \<and>
         (\<exists>resp reads. reply e = RoundTripOK resp reads \<and> isStream resp \<and>
            prefix (ResponseChunks rec) (filter (\<lambda>p. p \<noteq> []) reads))"
proof -
  from ServeHTTP_queued [OF assms(1)] obtain providerName rt r' rec1 answer rec2 where
    cap: "captureRequestBody cfg r (new_record e providerName rt r) = Inr (r', rec1)"
    and px: "proxy_ServeHTTP cfg (reply e) rec1 = (answer, rec2)"
    and rec: "rec = extractModelHint (json_model e) (rec2\<lparr>DurationMS := elapsed_ms e\<rparr>)"
    by blast
  from captureRequestBody_keeps_response_fields [OF cap]
  have r1: "\<not> Stream rec1" "ResponseChunks rec1 = []"
    by (simp_all add: new_record_def)
  have same: "Stream rec = Stream rec2" "ResponseChunks rec = ResponseChunks rec2"
    "ResponseBody rec = ResponseBody rec2"
    unfolding rec by (simp_all add: extractModelHint_keeps_response_fields)
  with assms(2) have "Stream rec2"
    by simp
  from proxy_ServeHTTP_stream [OF px r1 this] same show ?thesis by auto
qed

theorem stream_chunks_concat_to_body_witness:
  "queued (ServeHTTP cfg_1MB (env_with (RoundTripOK sse_response [''data: 1'', [], ''data: 2'']))
       (post \<lparr>content = ''{}'', read_fails = False\<rparr>)) =
     Some \<lparr>ID = ''id-1'', Timestamp = 1000, Provider = ''openai'', Method = ''POST'',
           URL = ''/openai/chat/completions'', Upstream = ''https://api.openai.com/v1'',
           Status = 200, DurationMS = 12, RequestBody = ''{}'',
           ResponseBody = ''data: 1data: 2'', Stream = True,
           ResponseChunks = [''data: 1'', ''data: 2''],
           SizeReqBytes = 2, SizeResBytes = 14, ModelHint = [], Error = None\<rparr>
   \<and> concat [''data: 1'', ''data: 2''] = ''data: 1data: 2''
   \<and> prefix [''data: 1'', ''data: 2''] (filter (\<lambda>p. p \<noteq> []) [''data: 1'', [], ''data: 2''])"
proof -
  have q: "queued (ServeHTTP cfg_1MB
              (env_with (RoundTripOK sse_response [''data: 1'', [], ''data: 2'']))
              (post \<lparr>content = ''{}'', read_fails = False\<rparr>)) =
     Some \<lparr>ID = ''id-1'', Timestamp = 1000, Provider = ''openai'', Method = ''POST'',
           URL = ''/openai/chat/completions'', Upstream = ''https://api.openai.com/v1'',
           Status = 200, DurationMS = 12, RequestBody = ''{}'',
           ResponseBody = ''data: 1data: 2'', Stream = True,
           ResponseChunks = [''data: 1'', ''data: 2''],
           SizeReqBytes = 2, SizeResBytes = 14, ModelHint = [], Error = None\<rparr>"
    by (simp add: example_defs handler_defs Let_def)
  from stream_chunks_concat_to_body [OF q] q show ?thesis
    by (simp add: env_with_def)
qed

section \<open>Finalisation on close\<close>

lemma run_ops_closed:
  "closed bc \<Longrightarrow> fst (run_ops ops (bc, rec1)) = 0 \<and> snd (snd (run_ops ops (bc, rec1))) = rec1"
proof (induction ops arbitrary: bc)
  case Nil
  then show ?case by simp
next
  case (Cons op ops)
  show ?case
  proof (cases op)
    case (Read p)
    with Cons.IH [of "bodyCapture_Read p bc"] Cons.prems show ?thesis
      by (simp add: closed_bodyCapture_Read)
  next
    case Close
    with Cons.IH [of bc] Cons.prems show ?thesis
      by (simp add: bodyCapture_Close_def split: prod.splits)
  qed
qed

lemma run_ops_Reads:
  "run_ops (map Read ps @ ops) (bc, rec1) = run_ops ops (fold bodyCapture_Read ps bc, rec1)"
  by (induction ps arbitrary: bc) simp_all

lemma run_ops_first_Close:
  assumes "\<not> closed bc"
  shows "fst (run_ops (Close # ops) (bc, rec1)) = 1 \<and>
         snd (snd (run_ops (Close # ops) (bc, rec1))) = onClose bc rec1"
  using assms run_ops_closed [of "bc\<lparr>closed := True\<rparr>" ops "onClose bc rec1"]
  by (auto simp add: bodyCapture_Close_def split: prod.splits)

lemma run_ops_at_most_once: "fst (run_ops ops (bc, rec1)) \<le> 1"
proof (induction ops arbitrary: bc)
  case Nil
  then show ?case by simp
next
  case (Cons op ops)
  show ?case
  proof (cases op)
    case (Read p)
    with Cons.IH [of "bodyCapture_Read p bc"] show ?thesis by simp
  next
    case Close
    show ?thesis
    proof (cases "closed bc")
      case True
      from run_ops_closed [OF True, of "Close # ops" rec1] Close show ?thesis by simp
    next
      case False
      from run_ops_first_Close [OF False, of ops rec1] Close show ?thesis by simp
    qed
  qed
qed

text \<open>
  Claim C10: on the body installed by \<open>captureResponseBody\<close>, any sequence of reads
  and closes calls \<open>onClose\<close> at most once; when the sequence has a close, the first one
  calls it, no later one does, and the record's response fields stay the snapshot taken
  at the first close, whatever is read or closed afterwards. (Calls are taken one after
  another; the \<open>closed\<close> flag has no lock.)
\<close>

theorem onClose_runs_at_most_once:
  assumes "captureResponseBody cfg resp rec0 = (err, rec1, Some bc)"
  shows "fst (run_ops ops (bc, rec1)) \<le> 1 \<and>
         fst (run_ops (map Read ps @ Close # rest) (bc, rec1)) = 1 \<and>
         snd (snd (run_ops (map Read ps @ Close # rest) (bc, rec1))) =
           onClose (fold bodyCapture_Read ps bc) rec1"
proof -
  from assms have "\<not> closed bc"
    by (auto simp add: captureResponseBody_def split: if_splits)
  then have "\<not> closed (fold bodyCapture_Read ps bc)"
    by (simp add: closed_fold_Read)
  from run_ops_first_Close [OF this, of rest rec1] run_ops_at_most_once [of ops bc rec1]
  show ?thesis by (simp add: run_ops_Reads)
qed

theorem onClose_runs_at_most_once_witness:
  "captureResponseBody cfg_1MB sse_response
      (new_record (env_with RoundTripError) ''openai'' openai_route
         (post \<lparr>content = ''{}'', read_fails = False\<rparr>)) =
     (None,
      (new_record (env_with RoundTripError) ''openai'' openai_route
         (post \<lparr>content = ''{}'', read_fails = False\<rparr>))\<lparr>Stream := True\<rparr>,
      Some \<lparr>reader = streamCapture 1048576, buf = [], chunks = [], closed = False\<rparr>) \<and>
   fst (run_ops [Read ''data: 1'', Close, Read ''data: 2'', Close]
      (\<lparr>reader = streamCapture 1048576, buf = [], chunks = [], closed = False\<rparr>,
       (new_record (env_with RoundTripError) ''openai'' openai_route
         (post \<lparr>content = ''{}'', read_fails = False\<rparr>))\<lparr>Stream := True\<rparr>)) = 1 \<and>
   ResponseChunks (snd (snd (run_ops [Read ''data: 1'', Close, Read ''data: 2'', Close]
      (\<lparr>reader = streamCapture 1048576, buf = [], chunks = [], closed = False\<rparr>,
       (new_record (env_with RoundTripError) ''openai'' openai_route
         (post \<lparr>content = ''{}'', read_fails = False\<rparr>))\<lparr>Stream := True\<rparr>)))) = [''data: 1'']"
proof -
  let ?rec0 = "new_record (env_with RoundTripError) ''openai'' openai_route
         (post \<lparr>content = ''{}'', read_fails = False\<rparr>)"
  let ?bc = "\<lparr>reader = streamCapture 1048576, buf = [], chunks = [], closed = False\<rparr>"
  have h: "captureResponseBody cfg_1MB sse_response ?rec0 =
             (None, ?rec0\<lparr>Stream := True\<rparr>, Some ?bc)"
    by (simp add: captureResponseBody_def)
  from onClose_runs_at_most_once
         [OF h, of "[Read ''data: 1'', Close, Read ''data: 2'', Close]" "[''data: 1'']"
            "[Read ''data: 2'', Close]"] h
  show ?thesis
    by (simp add: onClose_def bodyCapture_Read_def streamCapture_Read_def Let_def)
qed

section \<open>Sorting\<close>

lemma mset_insert_less: "mset (insert_less lessf x xs) = add_mset x (mset xs)"
  by (induction xs) simp_all

lemma mset_foldl_insert_less:
  "mset (foldl (\<lambda>acc x. insert_less lessf x acc) acc xs) = mset acc + mset xs"
  by (induction xs arbitrary: acc) (simp_all add: mset_insert_less)

lemma mset_sort_Slice: "mset (sort_Slice lessf xs) = mset xs"
  by (simp add: sort_Slice_def mset_foldl_insert_less)

lemma mset_sortRecords: "mset (sortRecords rs sortBy) = mset rs"
  by (simp add: sortRecords_def mset_sort_Slice)

lemma set_insert_less: "set (insert_less lessf x xs) = insert x (set xs)"
  by (induction xs) auto

lemma sorted_insert_less_desc:
  fixes k :: "'a \<Rightarrow> int"
  shows "sorted_wrt (\<lambda>a b. k a \<ge> k b) xs \<Longrightarrow>
         sorted_wrt (\<lambda>a b. k a \<ge> k b) (insert_less (\<lambda>a b. k a > k b) x xs)"
  by (induction xs) (auto simp add: set_insert_less)

lemma sorted_foldl_insert_less_desc:
  fixes k :: "'a \<Rightarrow> int"
  shows "sorted_wrt (\<lambda>a b. k a \<ge> k b) acc \<Longrightarrow>
         sorted_wrt (\<lambda>a b. k a \<ge> k b) (foldl (\<lambda>acc x. insert_less (\<lambda>a b. k a > k b) x acc) acc xs)"
  by (induction xs arbitrary: acc) (simp_all add: sorted_insert_less_desc)

lemma sorted_sortRecords_desc:
  "sorted_wrt (\<lambda>a b. Timestamp a \<ge> Timestamp b) (sortRecords rs ''-ts'')"
  by (simp add: sortRecords_def sort_Slice_def sorted_foldl_insert_less_desc)

lemma sorted_insert_less_asc:
  fixes k :: "'a \<Rightarrow> int"
  shows "sorted_wrt (\<lambda>a b. k a \<le> k b) xs \<Longrightarrow>
         sorted_wrt (\<lambda>a b. k a \<le> k b) (insert_less (\<lambda>a b. k a < k b) x xs)"
  by (induction xs) (auto simp add: set_insert_less)

lemma sorted_foldl_insert_less_asc:
  fixes k :: "'a \<Rightarrow> int"
  shows "sorted_wrt (\<lambda>a b. k a \<le> k b) acc \<Longrightarrow>
         sorted_wrt (\<lambda>a b. k a \<le> k b) (foldl (\<lambda>acc x. insert_less (\<lambda>a b. k a < k b) x acc) acc xs)"
  by (induction xs arbitrary: acc) (simp_all add: sorted_insert_less_asc)

lemma sorted_sortRecords_asc:
  "sortBy \<noteq> ''-ts'' \<Longrightarrow> sorted_wrt (\<lambda>a b. Timestamp a \<le> Timestamp b) (sortRecords rs sortBy)"
  by (simp add: sortRecords_def sort_Slice_def sorted_foldl_insert_less_asc)

section \<open>Pagination\<close>

lemma sint_start_plus_limit:
  fixes lim :: "64 word"
  assumes "0 \<le> start" and "start + sint lim < 2 ^ 63" and "0 < sint lim"
  shows "sint ((word_of_int start :: 64 word) + lim) = start + sint lim"
proof -
  have "(word_of_int start :: 64 word) + lim = word_of_int (start + sint lim)"
    by simp
  then have "sint ((word_of_int start :: 64 word) + lim) = signed_take_bit 63 (start + sint lim)"
    by (simp only: sint_sbintrunc') simp
  also have "\<dots> = start + sint lim"
    using assms by (intro signed_take_bit_int_eq_self) simp_all
  finally show ?thesis .
qed

lemma List_page:
  assumes off: "0 \<le> sint (Offset q)"
    and lim: "sint (Limit q) \<le> 0 \<or>
              min (sint (Offset q)) (int (length (sorted_matches s ks q))) + sint (Limit q) < 2 ^ 63"
  shows "List s ks q =
           Inr (if sint (Limit q) \<le> 0 then drop (nat (sint (Offset q))) (sorted_matches s ks q)
                else take (nat (sint (Limit q)))
                       (drop (nat (sint (Offset q))) (sorted_matches s ks q)),
                length (sorted_matches s ks q))"
proof -
  let ?ms = "sorted_matches s ks q"
  let ?n = "int (length ?ms)"
  let ?start = "if sint (Offset q) > ?n then ?n else sint (Offset q)"
  have st: "0 \<le> ?start" "?start \<le> ?n"
    using off by auto
  show ?thesis
  proof (cases "sint (Limit q) \<le> 0")
    case True
    then show ?thesis using st
      by (auto simp add: List_def Let_def)
  next
    case False
    with lim have "?start + sint (Limit q) < 2 ^ 63"
      by (simp add: min_def split: if_splits)
    from sint_start_plus_limit [OF st(1) this] False
    have e: "sint ((word_of_int ?start :: 64 word) + Limit q) = ?start + sint (Limit q)"
      by simp
    show ?thesis using False st e
      by (auto simp add: List_def Let_def min_def)
  qed
qed

lemma parseQuery_no_params: "parseQuery lib (\<lambda>k. []) = Inr query0"
  by (simp add: parseQuery_def query0_def)

lemma List_negative_offset: "sint (Offset q) < 0 \<Longrightarrow> List s ks q = Inl Panic"
  by (simp add: List_def Let_def)

lemma store_AB_records:
  "records store_AB = [''a'' \<mapsto> rec_A, ''b'' \<mapsto> rec_B]"
  by (simp add: store_AB_def Save_def New_def rec_A_def rec_B_def)

lemma range_order_store_AB: "range_order store_AB [''a'', ''b'']"
  by (auto simp add: range_order_def store_AB_records)

lemma matchesQuery_no_filters:
  "Provider_q q = None \<Longrightarrow> StatusEq q = None \<Longrightarrow> From q = None \<Longrightarrow> To q = None \<Longrightarrow>
   ModelLike q = None \<Longrightarrow> URLLike q = None \<Longrightarrow> TextSearch q = None \<Longrightarrow> matchesQuery record q"
  by (simp add: matchesQuery_def)

lemma sorted_matches_AB: "sorted_matches store_AB [''a'', ''b''] query0 = [rec_B, rec_A]"
  by (simp add: sorted_matches_def store_AB_records List.map_filter_def matchesQuery_no_filters
      query0_def sortRecords_def sort_Slice_def rec_A_def rec_B_def)

lemma matchesQuery_ignores_paging:
  "matchesQuery record (q\<lparr>Offset := off, Limit := lim\<rparr>) = matchesQuery record q"
  by (simp add: matchesQuery_def)

lemma sorted_matches_ignores_paging:
  "sorted_matches s ks (q\<lparr>Offset := off, Limit := lim\<rparr>) = sorted_matches s ks q"
  by (simp add: sorted_matches_def matchesQuery_ignores_paging)

text \<open>
  Claim C5 asks that every \<open>List\<close> call applies offset and limit clamped to the
  available range. \<open>List\<close> clamps \<open>start\<close> and \<open>end\<close> from above only: with
  offset 1 and limit \<open>9223372036854775807\<close>, where \<open>start + q.Limit\<close> wraps to a
  negative \<open>end\<close>, and with a negative offset, it panics instead of returning a page;
  the listing handler passes both on from the request unchanged.
\<close>

theorem List_panics_outside_range:
  "List store_AB [''a'', ''b''] (query0\<lparr>Offset := 1, Limit := 9223372036854775807\<rparr>) = Inl Panic \<and>
   handleRequests lib_example store_AB [''a'', ''b''] ''GET''
     ((\<lambda>k. [])(''offset'' := ''1'', ''limit'' := ''9223372036854775807'')) = Panicked \<and>
   List store_AB [''a'', ''b''] (query0\<lparr>Offset := - 1\<rparr>) = Inl Panic \<and>
   handleRequests lib_example store_AB [''a'', ''b''] ''GET''
     ((\<lambda>k. [])(''offset'' := ''-1'')) = Panicked"
proof (intro conjI)
  have "sorted_matches store_AB [''a'', ''b'']
          (query0\<lparr>Offset := 1, Limit := 9223372036854775807\<rparr>) = [rec_B, rec_A]"
    using sorted_matches_AB by (simp add: sorted_matches_ignores_paging)
  then show wrap:
    "List store_AB [''a'', ''b''] (query0\<lparr>Offset := 1, Limit := 9223372036854775807\<rparr>) = Inl Panic"
    by (simp add: List_def Let_def)
  have "parseQuery lib_example
          ((\<lambda>k. [])(''offset'' := ''1'', ''limit'' := ''9223372036854775807'')) =
        Inr (query0\<lparr>Offset := 1, Limit := 9223372036854775807\<rparr>)"
    by (simp add: parseQuery_def query0_def lib_example_def)
  with wrap show "handleRequests lib_example store_AB [''a'', ''b''] ''GET''
     ((\<lambda>k. [])(''offset'' := ''1'', ''limit'' := ''9223372036854775807'')) = Panicked"
    by (simp add: handleRequests_def)
  show "List store_AB [''a'', ''b''] (query0\<lparr>Offset := - 1\<rparr>) = Inl Panic"
    by (simp add: List_negative_offset)
  have "parseQuery lib_example ((\<lambda>k. [])(''offset'' := ''-1'')) = Inr (query0\<lparr>Offset := - 1\<rparr>)"
    by (simp add: parseQuery_def query0_def lib_example_def)
  then show "handleRequests lib_example store_AB [''a'', ''b''] ''GET''
     ((\<lambda>k. [])(''offset'' := ''-1'')) = Panicked"
    by (simp add: handleRequests_def List_negative_offset)
qed

section \<open>Order and total\<close>

lemma map_filter_range_order:
  assumes "range_order s ks"
  shows "List.map_filter (records s) ks = map (\<lambda>rid. the (records s rid)) ks"
proof -
  have "\<forall>rid\<in>set ks. records s rid \<noteq> None"
    using assms by (auto simp add: range_order_def)
  then show ?thesis
    by (induction ks) (auto simp add: List.map_filter_simps)
qed

lemma set_map_filter_range_order:
  assumes "range_order s ks"
  shows "set (List.map_filter (records s) ks) = ran (records s)"
  using assms
  by (auto simp add: map_filter_range_order range_order_def ran_def dom_def image_iff)
     (metis option.sel)+

lemma length_filter_range_order:
  assumes "range_order s ks"
  shows "length (filter P (List.map_filter (records s) ks)) =
           card {rid \<in> dom (records s). \<exists>record. records s rid = Some record \<and> P record}"
proof -
  have d: "distinct ks" and k: "set ks = dom (records s)"
    using assms by (simp_all add: range_order_def)
  have "length (filter P (List.map_filter (records s) ks)) =
          length (filter (\<lambda>rid. P (the (records s rid))) ks)"
    by (simp add: map_filter_range_order [OF assms] filter_map comp_def)
  also have "\<dots> = card ({rid. P (the (records s rid))} \<inter> set ks)"
    using d by (rule distinct_length_filter)
  also have "{rid. P (the (records s rid))} \<inter> set ks =
               {rid \<in> dom (records s). \<exists>record. records s rid = Some record \<and> P record}"
    using k by auto
  finally show ?thesis .
qed

lemma length_sorted_matches:
  assumes "range_order s ks"
  shows "length (sorted_matches s ks q) =
           card {rid \<in> dom (records s). \<exists>record. records s rid = Some record \<and> matchesQuery record q}"
proof -
  have "length (sorted_matches s ks q) =
          size (mset (sortRecords
            (filter (\<lambda>record. matchesQuery record q) (List.map_filter (records s) ks)) (Sort q)))"
    by (simp add: sorted_matches_def)
  also have "\<dots> = length (filter (\<lambda>record. matchesQuery record q) (List.map_filter (records s) ks))"
    by (simp only: mset_sortRecords size_mset)
  finally show ?thesis
    by (simp add: length_filter_range_order [OF assms])
qed

lemma set_sorted_matches:
  assumes "range_order s ks"
  shows "set (sorted_matches s ks q) = {record \<in> ran (records s). matchesQuery record q}"
proof -
  have "set (sorted_matches s ks q) =
          set_mset (mset (sortRecords
            (filter (\<lambda>record. matchesQuery record q) (List.map_filter (records s) ks)) (Sort q)))"
    by (simp add: sorted_matches_def)
  also have "\<dots> = set (filter (\<lambda>record. matchesQuery record q) (List.map_filter (records s) ks))"
    by (simp only: mset_sortRecords set_mset_mset)
  finally show ?thesis
    by (auto simp add: set_map_filter_range_order [OF assms])
qed

lemma List_total:
  "List s ks q = Inr (page, tot) \<Longrightarrow> tot = length (sorted_matches s ks q)"
  by (auto simp add: List_def Let_def split: if_splits)

lemma card_dom_all_match:
  fixes s :: "'c memory_Store"
  assumes "\<And>record :: 'c Record. matchesQuery record q"
  shows "{rid \<in> dom (records s). \<exists>record. records s rid = Some record \<and> matchesQuery record q} = dom (records s)"
  using assms by auto

lemma query0_paging [simp]:
  "Offset query0 = 0" "Limit query0 = 50" "Sort query0 = ''-ts''"
  by (simp_all add: query0_def)

text \<open>
  Claim C6: for the query that \<open>parseQuery\<close> builds from no parameters (no filters,
  offset 0, limit 50, sort \<open>-ts\<close>), \<open>List\<close> returns the first 50 of all stored
  records in descending order of timestamp, with the number of stored records as total;
  and for any query, the total that \<open>List\<close> returns is the number of stored records
  matching the filters, the same for every offset, limit and visiting order of the map.
\<close>

theorem List_default_newest_first:
  fixes s :: "'c memory_Store"
  assumes "range_order s ks" and "parseQuery lib (\<lambda>k. []) = Inr q0"
  shows "List s ks q0 = Inr (take 50 (sorted_matches s ks q0), card (dom (records s))) \<and>
         sorted_wrt (\<lambda>a b. Timestamp a \<ge> Timestamp b) (sorted_matches s ks q0) \<and>
         set (sorted_matches s ks q0) = ran (records s) \<and>
         length (sorted_matches s ks q0) = card (dom (records s)) \<and>
         (List s ks q = Inr (page, tot) \<longrightarrow>
            tot = card {rid \<in> dom (records s).
                         \<exists>record. records s rid = Some record \<and> matchesQuery record q}) \<and>
         (List s ks q = Inr (page, tot) \<and> range_order s ks' \<and>
          List s ks' (q\<lparr>Offset := off, Limit := lim\<rparr>) = Inr (page', tot') \<longrightarrow> tot' = tot)"
proof -
  from assms(2) have q0: "q0 = query0"
    by (simp add: parseQuery_no_params)
  have all: "\<And>record :: 'c Record. matchesQuery record q0"
    unfolding q0 by (simp add: matchesQuery_no_filters query0_def)
  have len: "length (sorted_matches s ks q0) = card (dom (records s))"
    using length_sorted_matches [OF assms(1), of q0] card_dom_all_match [of q0 s, OF all] by simp
  have "List s ks q0 =
          Inr (take (nat (sint (Limit q0))) (drop (nat (sint (Offset q0))) (sorted_matches s ks q0)),
               length (sorted_matches s ks q0))"
    using List_page [of q0 s ks] by (simp add: q0 query0_def)
  then have 1: "List s ks q0 = Inr (take 50 (sorted_matches s ks q0), card (dom (records s)))"
    by (simp add: len) (simp add: q0 query0_def)
  have 2: "sorted_wrt (\<lambda>a b. Timestamp a \<ge> Timestamp b) (sorted_matches s ks q0)"
    by (simp add: sorted_matches_def q0 query0_def sorted_sortRecords_desc)
  have 3: "set (sorted_matches s ks q0) = ran (records s)"
    using set_sorted_matches [OF assms(1), of q0] all by simp
  have 5: "List s ks q = Inr (page, tot) \<longrightarrow>
            tot = card {rid \<in> dom (records s).
                         \<exists>record. records s rid = Some record \<and> matchesQuery record q}"
    using List_total [of s ks q page tot] length_sorted_matches [OF assms(1), of q] by simp
  have 6: "List s ks q = Inr (page, tot) \<and> range_order s ks' \<and>
          List s ks' (q\<lparr>Offset := off, Limit := lim\<rparr>) = Inr (page', tot') \<longrightarrow> tot' = tot"
  proof (intro impI, elim conjE)
    assume a: "List s ks q = Inr (page, tot)" and r: "range_order s ks'"
      and b: "List s ks' (q\<lparr>Offset := off, Limit := lim\<rparr>) = Inr (page', tot')"
    from List_total [OF b] have "tot' = length (sorted_matches s ks' q)"
      by (simp add: sorted_matches_ignores_paging)
    with List_total [OF a] length_sorted_matches [OF r, of q]
      length_sorted_matches [OF assms(1), of q]
    show "tot' = tot" by simp
  qed
  from 1 2 3 len 5 6 show ?thesis by blast
qed

theorem List_default_newest_first_witness:
  "range_order store_AB [''a'', ''b''] \<and>
   parseQuery lib_example (\<lambda>k. []) = Inr query0 \<and>
   List store_AB [''a'', ''b''] query0 = Inr ([rec_B, rec_A], 2) \<and>
   Timestamp rec_B \<ge> Timestamp rec_A \<and>
   List store_AB [''a'', ''b''] (query0\<lparr>Provider_q := Some ''openai''\<rparr>) = Inr ([rec_A], 1) \<and>
   range_order store_AB [''b'', ''a''] \<and>
   List store_AB [''b'', ''a''] (query0\<lparr>Provider_q := Some ''openai'', Offset := 1, Limit := 1\<rparr>)
     = Inr ([], 1)"
proof -
  let ?q = "query0\<lparr>Provider_q := Some ''openai''\<rparr>"
  have h1: "range_order store_AB [''a'', ''b'']"
    by (rule range_order_store_AB)
  have h2: "parseQuery lib_example (\<lambda>k. []) = Inr query0"
    by (rule parseQuery_no_params)
  have h3: "range_order store_AB [''b'', ''a'']"
    by (auto simp add: range_order_def store_AB_records)
  have m: "sorted_matches store_AB [''a'', ''b''] ?q = [rec_A]"
    "sorted_matches store_AB [''b'', ''a''] ?q = [rec_A]"
    by (simp_all add: sorted_matches_def store_AB_records List.map_filter_def matchesQuery_def
      query0_def sortRecords_def sort_Slice_def rec_A_def rec_B_def)
  have h4: "List store_AB [''a'', ''b''] ?q = Inr ([rec_A], 1)"
    using List_page [of ?q store_AB "[''a'', ''b'']"] by (simp add: m)
  have h5: "List store_AB [''b'', ''a''] (?q\<lparr>Offset := 1, Limit := 1\<rparr>) = Inr ([], 1)"
    using List_page [of "?q\<lparr>Offset := 1, Limit := 1\<rparr>" store_AB "[''b'', ''a'']"]
    by (simp add: m sorted_matches_ignores_paging)
  from List_default_newest_first [OF h1 h2, of ?q "[rec_A]" 1 "[''b'', ''a'']" 1 1 "[]" 1] h1 h2 h3 h4 h5
  show ?thesis
    by (simp add: sorted_matches_AB)
qed

section \<open>Export\<close>







text \<open>\<open>ExportNDJSON\<close> on its own pages like \<open>List\<close>; the reset is the handler's.\<close>

lemma ExportNDJSON_applies_paging:
  "ExportNDJSON (Marshal lib_example) store_AB [''a'', ''b''] (query0\<lparr>Offset := 1, Limit := 1\<rparr>) =
     Inr (''{\"id\":\"a\"}'' @ [CHR 0x0A])"
proof -
  have "sorted_matches store_AB [''a'', ''b''] (query0\<lparr>Offset := 1, Limit := 1\<rparr>) = [rec_B, rec_A]"
    by (simp add: sorted_matches_ignores_paging sorted_matches_AB)
  then have "List store_AB [''a'', ''b''] (query0\<lparr>Offset := 1, Limit := 1\<rparr>) = Inr ([rec_A], 2)"
    using List_page [of "query0\<lparr>Offset := 1, Limit := 1\<rparr>" store_AB "[''a'', ''b'']"]
    by simp
  then show ?thesis
    by (simp add: ExportNDJSON_def lib_example_def rec_A_def)
qed

section \<open>Chunk replay\<close>




section \<open>Copies of records\<close>

text \<open>
  Claim C9 asks that changing the caller's record after \<open>Save\<close>, or a record obtained
  from the store, never changes what the store shows later, the chunk sequence included.
  \<open>Save\<close> and \<open>Get\<close> copy the struct, so the saved record, the stored one and the one
  \<open>Get\<close> returns share the backing array of \<open>ResponseChunks\<close>: after the assignment
  \<open>ResponseChunks[0] = "tampered"\<close> through any of them, the next \<open>Get\<close> shows the
  changed chunk.
\<close>

theorem Save_Get_share_chunks:
  "Get (Save New rec_S) ''s'' = Inr rec_S \<and>
   elems heap_S (ResponseChunks rec_S) = [''data: 1'', ''data: 2''] \<and>
   assign_index heap_S (ResponseChunks rec_S) 0 ''tampered'' =
     Some (heap_S(0 := [''tampered'', ''data: 2''])) \<and>
   map_sum (\<lambda>err. err) (\<lambda>got. elems (heap_S(0 := [''tampered'', ''data: 2''])) (ResponseChunks got))
      (Get (Save New rec_S) ''s'') = Inr [''tampered'', ''data: 2'']"
  by (simp add: Get_def Save_def New_def rec_S_def heap_S_def elems_def assign_index_def)

end
